theory Spec2Isabelle
  imports Main "HOL-Library.AList"
begin

section \<open>The Object tree of package meta\<close>

text \<open>
  The embedding follows \<^verbatim>\<open>pkg/meta\<close> (the file holding \<^verbatim>\<open>Object\<close>, \<^verbatim>\<open>Merge\<close> and
  \<^verbatim>\<open>getValidCmd\<close>).

  \<^item> Go's \<^verbatim>\<open>any\<close> is the type \<open>raw\<close>: nil, the scalars (booleans, numbers, here the
    integers, and strings), \<^verbatim>\<open>[]any\<close> and \<^verbatim>\<open>map[string]any\<close>. No function below looks
    into a scalar.
  \<^item> A Go map is an association list. The order of the list is the order in which
    \<^verbatim>\<open>range\<close> visits the map, which Go leaves open: a statement about every list is a
    statement about every order of visit. A write \<^verbatim>\<open>m[k] = v\<close> is \<open>AList.update\<close>, a
    read \<^verbatim>\<open>m[k]\<close> is \<open>map_of\<close>.
  \<^item> A nil slice (map) and an empty one are the same value here, the empty list: the
    functions below read them with \<^verbatim>\<open>len\<close>, \<^verbatim>\<open>range\<close> and \<^verbatim>\<open>append\<close>, which do not tell them
    apart, and write only to maps they made or that hold a key already.
  \<^item> A function returning \<^verbatim>\<open>(T, error)\<close> returns a pair whose second component is
    \<open>None\<close> for \<^verbatim>\<open>nil\<close>.
\<close>

datatype error = ErrConflict | ErrInvalidCommand | ErrNotFound | ErrArrayOutOfBounds

record Origin =
  File :: string
  Line :: int
  Col :: int

datatype raw =
    RNil
  | RBool bool
  | RInt int
  | RStr string
  | RSlice "raw list"
  | RMap "(string \<times> raw) list"

datatype Object =
  Object (Origins: "Origin list") (Array: "Object list") (Map: "(string \<times> Object) list")
         (Value: raw) (secret: bool)

text \<open>The zero value \<^verbatim>\<open>Object{}\<close>.\<close>

definition zeroObject :: Object where
  "zeroObject = Object [] [] [] RNil False"

text \<open>The constants \<^verbatim>\<open>Array = iota + 1\<close>, \<^verbatim>\<open>Map\<close>, \<^verbatim>\<open>Value\<close>; the plain names are taken by the
  fields of \<open>Object\<close>.\<close>

definition Array_kind :: int where "Array_kind = 1"
definition Map_kind :: int where "Map_kind = 2"
definition Value_kind :: int where "Value_kind = 3"

definition Kind :: "Object \<Rightarrow> int" where
  "Kind o' =
     (if 0 < length (Array o') then Array_kind
      else if 0 < length (Map o') then Map_kind
      else Value_kind)"

definition cmdSecret :: string where "cmdSecret = ''secret''"
definition cmdReplace :: string where "cmdReplace = ''replace''"
definition cmdKeep :: string where "cmdKeep = ''keep''"
definition cmdFail :: string where "cmdFail = ''fail''"
definition cmdAppend :: string where "cmdAppend = ''append''"
definition cmdPrepend :: string where "cmdPrepend = ''prepend''"
definition cmdSplice :: string where "cmdSplice = ''splice''"
definition cmdClear :: string where "cmdClear = ''clear''"

text \<open>
  The struct \<^verbatim>\<open>command\<close> is declared outside the files at hand; its three fields are
  the ones the code reads: \<^verbatim>\<open>cmd.cmd\<close>, \<^verbatim>\<open>cmd.final\<close>, \<^verbatim>\<open>cmd.secret\<close> (here \<open>cmd_secret\<close>,
  \<open>secret\<close> being the field of \<open>Object\<close>).
\<close>

datatype command = command (cmd: string) (final: string) (cmd_secret: bool)

text \<open>The zero value \<^verbatim>\<open>command{}\<close>.\<close>

definition zeroCommand :: command where
  "zeroCommand = command [] [] False"

text \<open>
  The parser \<^verbatim>\<open>getCmd\<close> is not among the files either. Every function that calls it takes
  it as the parameter \<open>gc\<close>, of Go's type \<^verbatim>\<open>func(string) (command, error)\<close>.
\<close>

type_synonym parser = "string \<Rightarrow> command \<times> error option"

text \<open>The table \<^verbatim>\<open>list\<close> of \<^verbatim>\<open>getValidCmd\<close>.\<close>

definition cmd_list :: "int \<Rightarrow> string list option" where
  "cmd_list k =
     (if k = Map_kind then Some ['''', cmdFail, cmdKeep, cmdReplace, cmdSplice]
      else if k = Array_kind then Some ['''', cmdFail, cmdKeep, cmdReplace, cmdAppend, cmdPrepend]
      else if k = Value_kind then Some ['''', cmdFail, cmdKeep, cmdReplace]
      else None)"

definition getValidCmd :: "parser \<Rightarrow> string \<Rightarrow> Object \<Rightarrow> command \<times> error option" where
  "getValidCmd gc key obj =
     (case gc key of
        (_, Some err) \<Rightarrow> (zeroCommand, Some err)
      | (c, None) \<Rightarrow>
          (case cmd_list (Kind obj) of
             Some opts \<Rightarrow>
               if cmd c \<in> set opts then (c, None) else (zeroCommand, Some ErrInvalidCommand)
           | None \<Rightarrow> (zeroCommand, Some ErrInvalidCommand)))"

subsection \<open>ResolveCommands\<close>

text \<open>
  \<open>resolveArray\<close> and \<open>resolveMap\<close> are the two \<^verbatim>\<open>range\<close> loops of
  \<^verbatim>\<open>resolveCommands\<close>; \<open>resolveMap\<close> carries the map \<^verbatim>\<open>m\<close> being filled.
\<close>

fun resolveCommands :: "parser \<Rightarrow> bool \<Rightarrow> Object \<Rightarrow> Object \<times> error option"
  and resolveArray :: "parser \<Rightarrow> Object list \<Rightarrow> Object list \<times> error option"
  and resolveMap :: "parser \<Rightarrow> (string \<times> Object) list \<Rightarrow> (string \<times> Object) list
                       \<Rightarrow> (string \<times> Object) list \<times> error option"
where
  "resolveCommands gc sec (Object os ar mp vl s) =
     (let s' = (if sec then True else s); obj = Object os ar mp vl s' in
      if Kind obj = Array_kind then
        (case resolveArray gc ar of
           (_, Some err) \<Rightarrow> (zeroObject, Some err)
         | (array, None) \<Rightarrow> (Object os array mp vl s', None))
      else if Kind obj = Map_kind then
        (case resolveMap gc [] mp of
           (_, Some err) \<Rightarrow> (zeroObject, Some err)
         | (m, None) \<Rightarrow> (Object os ar m vl s', None))
      else (obj, None))"
| "resolveArray gc [] = ([], None)"
| "resolveArray gc (val # rest) =
     (case resolveCommands gc False val of
        (_, Some err) \<Rightarrow> ([], Some err)
      | (v, None) \<Rightarrow>
          (case resolveArray gc rest of
             (_, Some err) \<Rightarrow> ([], Some err)
           | (vs, None) \<Rightarrow> (v # vs, None)))"
| "resolveMap gc m [] = (m, None)"
| "resolveMap gc m ((key, val) # rest) =
     (case getValidCmd gc key val of
        (_, Some err) \<Rightarrow> (m, Some err)
      | (c, None) \<Rightarrow>
          (case resolveCommands gc (cmd_secret c) val of
             (_, Some err) \<Rightarrow> (m, Some err)
           | (tmp, None) \<Rightarrow> resolveMap gc (AList.update (final c) tmp m) rest))"

definition ResolveCommands :: "parser \<Rightarrow> Object \<Rightarrow> Object \<times> error option" where
  "ResolveCommands gc obj = resolveCommands gc False obj"

subsection \<open>Merge\<close>

text \<open>
  A Go map is a reference: \<^verbatim>\<open>rv := obj\<close> copies the struct, not the map, and the writes
  \<^verbatim>\<open>obj.Map[newCmd.final] = v\<close> of \<^verbatim>\<open>merge\<close> land in the map of the caller's tree. The model
  passes that state explicitly: \<open>merge\<close> returns, before Go's two results, the contents
  of the receiver's map when the call ends. \<open>mergeMap\<close> is the \<^verbatim>\<open>range next.Map\<close> loop of
  the splice case and \<open>mergeKey\<close> is its body, run for one key; both take and return the
  contents of \<^verbatim>\<open>obj.Map\<close>, and an error set is a \<^verbatim>\<open>return\<close> from inside the loop. Slices,
  origins and the secret flag are copied with the struct and no callee can change them.
  The trees are taken to be trees: no map is reachable twice, neither inside one operand
  nor from both.
\<close>

fun merge :: "parser \<Rightarrow> command \<Rightarrow> Object \<Rightarrow> Object
                \<Rightarrow> (string \<times> Object) list \<times> Object \<times> error option"
  and mergeKey :: "parser \<Rightarrow> (string \<times> Object) list \<Rightarrow> string \<Rightarrow> Object
                     \<Rightarrow> (string \<times> Object) list \<times> error option"
  and mergeMap :: "parser \<Rightarrow> (string \<times> Object) list \<Rightarrow> (string \<times> Object) list
                     \<Rightarrow> (string \<times> Object) list \<times> error option"
where
  "merge gc c obj (Object nos nar nmp nvl ns) =
     (let next = Object nos nar nmp nvl ns in
      if Kind obj = Value_kind then
        (if cmd c = cmdReplace \<or> cmd c = [] then
           (Map obj, Object nos nar nmp nvl (cmd_secret c), None)
         else if cmd c = cmdKeep then
           (Map obj, Object (Origins obj) (Array obj) (Map obj) (Value obj) (cmd_secret c), None)
         else if cmd c = cmdFail then (Map obj, zeroObject, Some ErrConflict)
         else
           (Map obj, Object (Origins obj) (Array obj) (Map obj) (Value obj) (cmd_secret c), None))
      else if Kind obj = Array_kind then
        (case resolveCommands gc (secret obj) next of
           (_, Some err) \<Rightarrow> (Map obj, zeroObject, Some err)
         | (next', None) \<Rightarrow>
             if cmd c = cmdAppend \<or> cmd c = [] then
               (Map obj,
                Object (Origins obj @ Origins next') (Array obj @ Array next') (Map obj) (Value obj)
                  (if secret obj \<or> secret next' \<or> cmd_secret c then True else secret obj),
                None)
             else if cmd c = cmdPrepend then
               (Map obj,
                Object (Origins next' @ Origins obj) (Array next' @ Array obj) (Map obj) (Value obj)
                  (if secret obj \<or> secret next' \<or> cmd_secret c then True else secret obj),
                None)
             else if cmd c = cmdReplace then (Map obj, next', None)
             else if cmd c = cmdKeep then (Map obj, obj, None)
             else if cmd c = cmdFail then (Map obj, zeroObject, Some ErrConflict)
             else (Map obj, obj, None))
      else
        (if cmd c = cmdSplice \<or> cmd c = [] then
           (case mergeMap gc (Map obj) nmp of
              (m, Some err) \<Rightarrow> (m, zeroObject, Some err)
            | (m, None) \<Rightarrow>
                (m, Object (Origins obj) (Array obj) m (Value obj) (cmd_secret c), None))
         else if cmd c = cmdReplace then
           (case resolveCommands gc False next of
              (_, Some err) \<Rightarrow> (Map obj, zeroObject, Some err)
            | (v, None) \<Rightarrow>
                (Map obj, Object (Origins v) (Array v) (Map v) (Value v) (cmd_secret c), None))
         else if cmd c = cmdKeep then
           (Map obj, Object (Origins obj) (Array obj) (Map obj) (Value obj) (cmd_secret c), None)
         else if cmd c = cmdFail then (Map obj, zeroObject, Some ErrConflict)
         else
           (Map obj, Object (Origins obj) (Array obj) (Map obj) (Value obj) (cmd_secret c), None)))"
| "mergeKey gc m key val =
     (case getValidCmd gc key val of
        (_, Some err) \<Rightarrow> (m, Some err)
      | (newCmd, None) \<Rightarrow>
          (case map_of m (final newCmd) of
             None \<Rightarrow>
               (case resolveCommands gc (cmd_secret newCmd) val of
                  (_, Some err) \<Rightarrow> (m, Some err)
                | (v, None) \<Rightarrow> (AList.update (final newCmd) v m, None))
           | Some existing \<Rightarrow>
               if Kind existing = Kind val then
                 (case merge gc newCmd existing val of
                    (em, _, Some err) \<Rightarrow>
                      (AList.update (final newCmd)
                         (Object (Origins existing) (Array existing) em (Value existing)
                            (secret existing)) m,
                       Some err)
                  | (em, v, None) \<Rightarrow> (AList.update (final newCmd) v m, None))
               else if cmd newCmd = cmdSplice \<or> cmd newCmd = cmdReplace \<or> cmd newCmd = [] then
                 (case resolveCommands gc (cmd_secret newCmd) val of
                    (_, Some err) \<Rightarrow> (m, Some err)
                  | (v, None) \<Rightarrow> (AList.update (final newCmd) v m, None))
               else if cmd newCmd = cmdKeep then (AList.update (final newCmd) existing m, None)
               else if cmd newCmd = cmdFail then (m, Some ErrConflict)
               else (m, None)))"
| "mergeMap gc m [] = (m, None)"
| "mergeMap gc m ((key, val) # rest) =
     (case mergeKey gc m key val of
        (m', Some err) \<Rightarrow> (m', Some err)
      | (m', None) \<Rightarrow> mergeMap gc m' rest)"

declare mergeKey.simps [simp del]

text \<open>
  \<open>scanClear\<close> is the first loop of \<^verbatim>\<open>Merge\<close>; \<open>Some\<close> is a \<^verbatim>\<open>return\<close> from inside the
  loop, \<open>None\<close> is the loop running to its end.
\<close>

fun scanClear :: "parser \<Rightarrow> (string \<times> Object) list \<Rightarrow> (Object \<times> error option) option" where
  "scanClear gc [] = None"
| "scanClear gc ((k, _) # rest) =
     (case gc k of
        (_, Some err) \<Rightarrow> Some (zeroObject, Some err)
      | (c, None) \<Rightarrow>
          if cmd c = cmdClear then Some (Object [] [] [] RNil False, None)
          else scanClear gc rest)"

definition Merge :: "parser \<Rightarrow> Object \<Rightarrow> Object
                       \<Rightarrow> (string \<times> Object) list \<times> Object \<times> error option" where
  "Merge gc obj next =
     (case scanClear gc (Map next) of
        Some (rv, err) \<Rightarrow> (Map obj, rv, err)
      | None \<Rightarrow> merge gc zeroCommand obj next)"

subsection \<open>AlterKeyCase\<close>

text \<open>
  The argument \<^verbatim>\<open>to\<close> is a Go function value and may be nil (\<open>None\<close>). Calling a nil
  function is a run-time panic, the result \<open>None\<close> here. In \<^verbatim>\<open>m[to(key)] = val.AlterKeyCase(to)\<close>
  the call \<^verbatim>\<open>to(key)\<close> comes first.
\<close>

fun AlterKeyCase :: "(string \<Rightarrow> string) option \<Rightarrow> Object \<Rightarrow> Object option"
  and alterArray :: "(string \<Rightarrow> string) option \<Rightarrow> Object list \<Rightarrow> Object list option"
  and alterMap :: "(string \<Rightarrow> string) option \<Rightarrow> (string \<times> Object) list \<Rightarrow> (string \<times> Object) list
                     \<Rightarrow> (string \<times> Object) list option"
where
  "AlterKeyCase to (Object os ar mp vl s) =
     (let obj = Object os ar mp vl s in
      if Kind obj = Array_kind then
        (case alterArray to ar of
           None \<Rightarrow> None
         | Some array \<Rightarrow> Some (Object os array mp vl s))
      else if Kind obj = Map_kind then
        (case alterMap to [] mp of
           None \<Rightarrow> None
         | Some m \<Rightarrow> Some (Object os ar m vl s))
      else Some obj)"
| "alterArray to [] = Some []"
| "alterArray to (val # rest) =
     (case AlterKeyCase to val of
        None \<Rightarrow> None
      | Some v \<Rightarrow> (case alterArray to rest of None \<Rightarrow> None | Some vs \<Rightarrow> Some (v # vs)))"
| "alterMap to m [] = Some m"
| "alterMap to m ((key, val) # rest) =
     (case to of
        None \<Rightarrow> None
      | Some f \<Rightarrow>
          (case AlterKeyCase to val of
             None \<Rightarrow> None
           | Some v \<Rightarrow> alterMap to (AList.update (f key) v m) rest))"

subsection \<open>ToRaw and ObjectFromRaw\<close>

fun ToRaw :: "Object \<Rightarrow> raw"
  and toRawMap :: "(string \<times> raw) list \<Rightarrow> (string \<times> Object) list \<Rightarrow> (string \<times> raw) list"
where
  "ToRaw (Object os ar mp vl s) =
     (let obj = Object os ar mp vl s in
      if Kind obj = Array_kind then RSlice (map ToRaw ar)
      else if Kind obj = Map_kind then RMap (toRawMap [] mp)
      else vl)"
| "toRawMap rv [] = rv"
| "toRawMap rv ((key, val) # rest) = toRawMap (AList.update key (ToRaw val) rv) rest"

fun ObjectFromRaw :: "raw \<Rightarrow> Object"
  and fromRawMap :: "(string \<times> Object) list \<Rightarrow> (string \<times> raw) list \<Rightarrow> (string \<times> Object) list"
where
  "ObjectFromRaw (RSlice xs) = Object [] (map ObjectFromRaw xs) [] RNil False"
| "ObjectFromRaw (RMap kvs) = Object [] [] (fromRawMap [] kvs) RNil False"
| "ObjectFromRaw RNil = Object [] [] [] RNil False"
| "ObjectFromRaw (RBool b) = Object [] [] [] (RBool b) False"
| "ObjectFromRaw (RInt i) = Object [] [] [] (RInt i) False"
| "ObjectFromRaw (RStr t) = Object [] [] [] (RStr t) False"
| "fromRawMap m [] = m"
| "fromRawMap m ((key, val) # rest) = fromRawMap (AList.update key (ObjectFromRaw val) m) rest"

subsection \<open>The key parser\<close>

text \<open>
  Modelled from the spec: the parser \<^verbatim>\<open>getCmd\<close> of a map key is not among the files, nor
  are its parts. \<open>splitOpen\<close> cuts a key at its first \<^verbatim>\<open>((\<close>, \<open>tokens\<close> cuts a text at its
  blanks, \<open>directives\<close> are the spellings the spec lists, and \<open>applyTokens\<close> reads the tokens
  one by one: the marker \<^verbatim>\<open>secret\<close>, at most one directive, and \<^verbatim>\<open>ErrInvalidCommand\<close> for
  anything else.
\<close>

fun splitOpen :: "string \<Rightarrow> string \<Rightarrow> (string \<times> string) option" where
  "splitOpen pre (c # d # cs) =
     (if c = CHR ''('' \<and> d = CHR ''('' then Some (rev pre, cs)
      else splitOpen (c # pre) (d # cs))"
| "splitOpen pre cs = None"

fun tokens :: "string \<Rightarrow> string \<Rightarrow> string list" where
  "tokens cur [] = [rev cur]"
| "tokens cur (c # cs) =
     (if c = CHR '' '' then rev cur # tokens [] cs else tokens (c # cur) cs)"

definition directives :: "string list" where
  "directives = [cmdReplace, cmdKeep, cmdFail, cmdAppend, cmdPrepend, cmdSplice, cmdClear]"

fun applyTokens :: "command \<Rightarrow> string list \<Rightarrow> command \<times> error option" where
  "applyTokens c [] = (c, None)"
| "applyTokens c (t # ts) =
     (if t = [] then applyTokens c ts
      else if t = cmdSecret then applyTokens (command (cmd c) (final c) True) ts
      else if t \<in> set directives \<and> cmd c = [] then
        applyTokens (command t (final c) (cmd_secret c)) ts
      else (zeroCommand, Some ErrInvalidCommand))"

text \<open>
  Modelled from the spec: \<^verbatim>\<open>getCmd\<close> is missing from the files. The spec gives it as "parse
  key into (finalKey, directive, secret). Unrecognized directive tokens fail with
  InvalidCommand", spells the tokens \<^verbatim>\<open>replace\<close>, \<^verbatim>\<open>keep\<close>, \<^verbatim>\<open>fail\<close>, \<^verbatim>\<open>append\<close>, \<^verbatim>\<open>prepend\<close>,
  \<^verbatim>\<open>splice\<close>, \<^verbatim>\<open>clear\<close> and the marker \<^verbatim>\<open>secret\<close>, "combinable with a directive", and writes
  keys as \<^verbatim>\<open>a((replace))\<close> and \<^verbatim>\<open>pass((secret))\<close>; it leaves the rest of the grammar open.
  Here a key that does not end in \<^verbatim>\<open>))\<close> after a \<^verbatim>\<open>((\<close> is a plain key with no directive;
  otherwise the text before the first \<^verbatim>\<open>((\<close> is the final key and the text between holds
  the tokens, separated by blanks. The general theorems below hold for every parser;
  \<open>getCmd\<close> serves the concrete instances.
\<close>

definition getCmd :: parser where
  "getCmd key =
     (case splitOpen [] key of
        None \<Rightarrow> (command [] key False, None)
      | Some (name, rest) \<Rightarrow>
          if 2 \<le> length rest \<and> drop (length rest - 2) rest = ''))'' then
            applyTokens (command [] name False) (tokens [] (take (length rest - 2) rest))
          else (command [] key False, None))"

subsection \<open>Predicates on trees\<close>

text \<open>A list stands for a Go map only if no key occurs twice in it.\<close>

fun unique_keys :: "Object \<Rightarrow> bool" where
  "unique_keys (Object os ar mp vl s) =
     (distinct (map fst mp) \<and> (\<forall>x \<in> set ar. unique_keys x) \<and> (\<forall>x \<in> set (map snd mp). unique_keys x))"

text \<open>The scalars of a JSON document; a leaf holding one of them is a leaf of a tree built
  from JSON-representable data.\<close>

fun scalar :: "raw \<Rightarrow> bool" where
  "scalar (RSlice xs) = False"
| "scalar (RMap kvs) = False"
| "scalar v = True"

fun scalar_leaves :: "Object \<Rightarrow> bool" where
  "scalar_leaves (Object os ar mp vl s) =
     (scalar vl \<and> (\<forall>x \<in> set ar. scalar_leaves x) \<and> (\<forall>x \<in> set (map snd mp). scalar_leaves x))"

text \<open>
  Structural equality that ignores \<open>Origins\<close> and the secret flag: the same kind at every
  node, the same elements in the same order under an Array, the same keys with equal
  values under a Map, the same value at a leaf.
\<close>

fun struct_eq :: "Object \<Rightarrow> Object \<Rightarrow> bool" where
  "struct_eq (Object os ar mp vl s) b =
     (Kind (Object os ar mp vl s) = Kind b \<and>
      (if Kind b = Array_kind then list_all2 struct_eq ar (Array b)
       else if Kind b = Map_kind then
         list_all2 (\<lambda>p q. fst p = fst q \<and> struct_eq (snd p) (snd q)) mp (Map b)
       else vl = Value b))"

text \<open>
  The trees in which \<^verbatim>\<open>AlterKeyCase\<close> meets no node of kind Map: it descends through the
  elements of a node of kind Array and stops at a leaf.
\<close>

fun mapless :: "Object \<Rightarrow> bool" where
  "mapless (Object os ar mp vl s) =
     (if Kind (Object os ar mp vl s) = Array_kind then (\<forall>x \<in> set ar. mapless x)
      else Kind (Object os ar mp vl s) \<noteq> Map_kind)"

section \<open>Unfolding the definitions\<close>

lemmas kind_defs = Array_kind_def Map_kind_def Value_kind_def
lemmas cmd_defs = cmdSecret_def cmdReplace_def cmdKeep_def cmdFail_def cmdAppend_def
  cmdPrepend_def cmdSplice_def cmdClear_def

lemma Object_collapse: "Object (Origins x) (Array x) (Map x) (Value x) (secret x) = x"
  by (cases x) simp

lemma Kind_cases: "Kind x = Array_kind \<or> Kind x = Map_kind \<or> Kind x = Value_kind"
  by (simp add: Kind_def)

lemma merge_Value:
  assumes "Kind obj = Value_kind"
  shows "merge gc c obj next =
     (if cmd c = cmdReplace \<or> cmd c = [] then
        (Map obj, Object (Origins next) (Array next) (Map next) (Value next) (cmd_secret c), None)
      else if cmd c = cmdKeep then
        (Map obj, Object (Origins obj) (Array obj) (Map obj) (Value obj) (cmd_secret c), None)
      else if cmd c = cmdFail then (Map obj, zeroObject, Some ErrConflict)
      else (Map obj, Object (Origins obj) (Array obj) (Map obj) (Value obj) (cmd_secret c), None))"
proof (cases "next")
  case (Object nos nar nmp nvl ns)
  show ?thesis
    unfolding Object merge.simps Let_def
    using assms by (simp del: resolveCommands.simps)
qed

lemma merge_Array:
  assumes "Kind obj = Array_kind"
  shows "merge gc c obj next =
     (case resolveCommands gc (secret obj) next of
        (_, Some err) \<Rightarrow> (Map obj, zeroObject, Some err)
      | (next', None) \<Rightarrow>
          if cmd c = cmdAppend \<or> cmd c = [] then
            (Map obj,
             Object (Origins obj @ Origins next') (Array obj @ Array next') (Map obj) (Value obj)
               (if secret obj \<or> secret next' \<or> cmd_secret c then True else secret obj),
             None)
          else if cmd c = cmdPrepend then
            (Map obj,
             Object (Origins next' @ Origins obj) (Array next' @ Array obj) (Map obj) (Value obj)
               (if secret obj \<or> secret next' \<or> cmd_secret c then True else secret obj),
             None)
          else if cmd c = cmdReplace then (Map obj, next', None)
          else if cmd c = cmdKeep then (Map obj, obj, None)
          else if cmd c = cmdFail then (Map obj, zeroObject, Some ErrConflict)
          else (Map obj, obj, None))"
proof (cases "next")
  case (Object nos nar nmp nvl ns)
  have k: "Kind obj \<noteq> Value_kind"
    using assms by (simp add: kind_defs)
  show ?thesis
    unfolding Object merge.simps Let_def if_not_P [OF k] if_P [OF assms] ..
qed

lemma merge_Map:
  assumes "Kind obj = Map_kind"
  shows "merge gc c obj next =
     (if cmd c = cmdSplice \<or> cmd c = [] then
        (case mergeMap gc (Map obj) (Map next) of
           (m, Some err) \<Rightarrow> (m, zeroObject, Some err)
         | (m, None) \<Rightarrow> (m, Object (Origins obj) (Array obj) m (Value obj) (cmd_secret c), None))
      else if cmd c = cmdReplace then
        (case resolveCommands gc False next of
           (_, Some err) \<Rightarrow> (Map obj, zeroObject, Some err)
         | (v, None) \<Rightarrow>
             (Map obj, Object (Origins v) (Array v) (Map v) (Value v) (cmd_secret c), None))
      else if cmd c = cmdKeep then
        (Map obj, Object (Origins obj) (Array obj) (Map obj) (Value obj) (cmd_secret c), None)
      else if cmd c = cmdFail then (Map obj, zeroObject, Some ErrConflict)
      else (Map obj, Object (Origins obj) (Array obj) (Map obj) (Value obj) (cmd_secret c), None))"
proof (cases "next")
  case (Object nos nar nmp nvl ns)
  have k: "Kind obj \<noteq> Value_kind" "Kind obj \<noteq> Array_kind"
    using assms by (simp_all add: kind_defs)
  show ?thesis
    unfolding Object merge.simps Let_def if_not_P [OF k(1)] if_not_P [OF k(2)] Object.sel ..
qed

lemma merge_error_zero:
  assumes "merge gc c obj next = (m, rv, Some e)"
  shows "rv = zeroObject"
proof -
  consider "Kind obj = Value_kind" | "Kind obj = Array_kind" | "Kind obj = Map_kind"
    using Kind_cases by blast
  then show ?thesis
  proof cases
    case 1
    then show ?thesis
      using assms by (simp add: merge_Value split: if_splits)
  next
    case 2
    obtain n' r where res: "resolveCommands gc (secret obj) next = (n', r)"
      by (cases "resolveCommands gc (secret obj) next")
    show ?thesis
      using assms by (cases r) (simp_all add: merge_Array [OF 2] res split: if_splits)
  next
    case 3
    obtain n' r where res: "resolveCommands gc False next = (n', r)"
      by (cases "resolveCommands gc False next")
    obtain m' r' where mm: "mergeMap gc (Map obj) (Map next) = (m', r')"
      by (cases "mergeMap gc (Map obj) (Map next)")
    show ?thesis
      using assms by (cases r; cases r') (simp_all add: merge_Map [OF 3] res mm split: if_splits)
  qed
qed

section \<open>The two loops of Merge\<close>

lemma scanClear_None_iff:
  "scanClear gc xs = None \<longleftrightarrow>
     (\<forall>k \<in> set (map fst xs). snd (gc k) = None \<and> cmd (fst (gc k)) \<noteq> cmdClear)"
proof (induction xs)
  case Nil
  show ?case by simp
next
  case (Cons x xs)
  obtain k v where x: "x = (k, v)" by (cases x)
  obtain c e where g: "gc k = (c, e)" by (cases "gc k")
  show ?case using Cons.IH by (cases e) (simp_all add: x g)
qed

lemma scanClear_zero:
  "scanClear gc xs = Some (rv, Some e) \<Longrightarrow> rv = zeroObject"
proof (induction xs)
  case Nil
  then show ?case by simp
next
  case (Cons x xs)
  obtain k v where x: "x = (k, v)" by (cases x)
  obtain c r where g: "gc k = (c, r)" by (cases "gc k")
  show ?case
    using Cons by (cases r) (simp_all add: x g split: if_splits)
qed

lemma Merge_error_zero:
  assumes "Merge gc obj next = (m, rv, Some e)"
  shows "rv = zeroObject"
proof (cases "scanClear gc (Map next)")
  case None
  then show ?thesis
    using assms merge_error_zero by (simp add: Merge_def)
next
  case (Some p)
  then show ?thesis
    using assms scanClear_zero [of gc "Map next" rv e] by (cases p) (simp add: Merge_def)
qed

lemma mergeMap_append:
  "mergeMap gc m (xs @ ys) =
     (case mergeMap gc m xs of (m', Some e) \<Rightarrow> (m', Some e) | (m', None) \<Rightarrow> mergeMap gc m' ys)"
proof (induction xs arbitrary: m)
  case Nil
  show ?case by simp
next
  case (Cons x xs)
  obtain key val where x: "x = (key, val)" by (cases x)
  obtain m1 r where st: "mergeKey gc m key val = (m1, r)" by (cases "mergeKey gc m key val")
  show ?case
    by (cases r) (simp_all add: x st Cons.IH)
qed

lemma getValidCmd_ok:
  assumes "getValidCmd gc key val = (c, None)"
  shows "gc key = (c, None)" and "\<exists>opts. cmd_list (Kind val) = Some opts \<and> cmd c \<in> set opts"
  using assms
  by (auto simp: getValidCmd_def split: prod.splits option.splits if_splits)

lemma mergeKey_shape:
  "fst (mergeKey gc m key val) = m \<or>
   (\<exists>v. fst (mergeKey gc m key val) = AList.update (final (fst (gc key))) v m)"
proof -
  obtain c r where v: "getValidCmd gc key val = (c, r)" by (cases "getValidCmd gc key val")
  show ?thesis
  proof (cases r)
    case (Some e)
    then show ?thesis by (simp add: mergeKey.simps v)
  next
    case None
    then have f: "fst (gc key) = c"
      using getValidCmd_ok(1) v by fastforce
    obtain v1 r1 where res: "resolveCommands gc (cmd_secret c) val = (v1, r1)"
      by (cases "resolveCommands gc (cmd_secret c) val")
    show ?thesis
    proof (cases "map_of m (final c)")
      case nf: None
      show ?thesis
        by (cases r1) (auto simp: mergeKey.simps v None nf res f)
    next
      case (Some existing)
      obtain em v2 r2 where mg: "merge gc c existing val = (em, v2, r2)"
        by (cases "merge gc c existing val")
      show ?thesis
        by (cases r1; cases r2) (auto simp: mergeKey.simps v None Some res mg f)
    qed
  qed
qed

lemma mergeKey_keys:
  assumes "k \<in> fst ` set m"
  shows "k \<in> fst ` set (fst (mergeKey gc m key val))"
proof -
  have "\<And>j v. k \<in> fst ` set (AList.update j v m)"
    using assms by (simp add: dom_update)
  then show ?thesis
    using mergeKey_shape [of gc m key val] assms by metis
qed

lemma mergeMap_keys:
  "k \<in> fst ` set m \<Longrightarrow> k \<in> fst ` set (fst (mergeMap gc m xs))"
proof (induction xs arbitrary: m)
  case Nil
  then show ?case by simp
next
  case (Cons x xs)
  obtain key val where x: "x = (key, val)" by (cases x)
  obtain m1 r where st: "mergeKey gc m key val = (m1, r)" by (cases "mergeKey gc m key val")
  have "k \<in> fst ` set m1"
    using mergeKey_keys [OF Cons.prems, of gc key val] by (simp add: st)
  then show ?case
    using Cons.IH [of m1] by (cases r) (simp_all add: x st)
qed



lemma Merge_at_key:
  assumes "Kind obj = Map_kind"
    and "\<forall>j \<in> set (map fst (Map next)). snd (gc j) = None \<and> cmd (fst (gc j)) \<noteq> cmdClear"
    and "Map next = pre @ (key, val) # post"
    and "mergeMap gc (Map obj) pre = (m, None)"
  shows "Merge gc obj next =
           (case mergeKey gc m key val of
              (m', Some err) \<Rightarrow> (m', zeroObject, Some err)
            | (m', None) \<Rightarrow>
                (case mergeMap gc m' post of
                   (m'', Some err) \<Rightarrow> (m'', zeroObject, Some err)
                 | (m'', None) \<Rightarrow>
                     (m'', Object (Origins obj) (Array obj) m'' (Value obj) False, None)))"
proof -
  have scan: "scanClear gc (Map next) = None"
    using assms(2) by (simp add: scanClear_None_iff)
  obtain m1 r where st: "mergeKey gc m key val = (m1, r)"
    by (cases "mergeKey gc m key val")
  have loop: "mergeMap gc (Map obj) (Map next) =
                (case r of Some err \<Rightarrow> (m1, Some err) | None \<Rightarrow> mergeMap gc m1 post)"
    unfolding assms(3) mergeMap_append assms(4) by (cases r) (simp_all add: st)
  have "Merge gc obj next = merge gc zeroCommand obj next"
    by (simp add: Merge_def scan)
  also have "\<dots> = (case mergeMap gc (Map obj) (Map next) of
                      (m', Some err) \<Rightarrow> (m', zeroObject, Some err)
                    | (m', None) \<Rightarrow>
                        (m', Object (Origins obj) (Array obj) m' (Value obj) False, None))"
    using assms(1) by (simp add: merge_Map zeroCommand_def)
  finally show ?thesis
    by (cases r) (simp_all add: loop st)
qed

lemma mergeKey_mismatch:
  assumes "getValidCmd gc key val = (c, None)"
    and "map_of m (final c) = Some existing"
    and "Kind existing \<noteq> Kind val"
  shows "mergeKey gc m key val =
           (if cmd c = cmdSplice \<or> cmd c = cmdReplace \<or> cmd c = [] then
              (case resolveCommands gc (cmd_secret c) val of
                 (_, Some err) \<Rightarrow> (m, Some err)
               | (v, None) \<Rightarrow> (AList.update (final c) v m, None))
            else if cmd c = cmdKeep then (AList.update (final c) existing m, None)
            else if cmd c = cmdFail then (m, Some ErrConflict)
            else (m, None))"
  using assms by (simp add: mergeKey.simps)

section \<open>Resolving an Array\<close>

lemma resolveCommands_Array:
  assumes "Kind next = Array_kind"
  shows "resolveCommands gc sec next =
           (case resolveArray gc (Array next) of
              (_, Some err) \<Rightarrow> (zeroObject, Some err)
            | (array, None) \<Rightarrow>
                (Object (Origins next) array (Map next) (Value next)
                   (if sec then True else secret next), None))"
  using assms by (cases "next") (auto simp: Let_def Kind_def kind_defs split: if_splits)

lemma resolveCommands_Value:
  assumes "Kind x = Value_kind"
  shows "resolveCommands gc False x = (x, None)"
  using assms by (cases x) (simp add: Let_def Kind_def kind_defs split: if_splits)

lemma resolveArray_leaves:
  "\<forall>x \<in> set xs. Kind x = Value_kind \<Longrightarrow> resolveArray gc xs = (xs, None)"
  by (induction xs) (simp_all add: resolveCommands_Value)

section \<open>AlterKeyCase with the identity and with nil\<close>

lemma update_fresh: "k \<notin> fst ` set al \<Longrightarrow> AList.update k v al = al @ [(k, v)]"
  by (induction al) auto

lemma alterArray_id:
  "\<forall>x \<in> set ar. AlterKeyCase to x = Some x \<Longrightarrow> alterArray to ar = Some ar"
  by (induction ar) simp_all

lemma alterMap_id:
  "\<forall>x \<in> set (map snd mp). AlterKeyCase (Some (\<lambda>k. k)) x = Some x \<Longrightarrow>
   distinct (map fst (acc @ mp)) \<Longrightarrow>
   alterMap (Some (\<lambda>k. k)) acc mp = Some (acc @ mp)"
proof (induction mp arbitrary: acc)
  case Nil
  show ?case by simp
next
  case (Cons x mp)
  obtain key val where x: "x = (key, val)" by (cases x)
  have fresh: "key \<notin> fst ` set acc"
    using Cons.prems(2) by (auto simp: x)
  have d: "distinct (map fst ((acc @ [(key, val)]) @ mp))"
    using Cons.prems(2) by (simp add: x)
  have "alterMap (Some (\<lambda>k. k)) (acc @ [(key, val)]) mp = Some ((acc @ [(key, val)]) @ mp)"
    using Cons.IH [OF _ d] Cons.prems(1) by simp
  then show ?case
    using Cons.prems(1) by (simp add: x update_fresh [OF fresh])
qed

lemma AlterKeyCase_id:
  "unique_keys t \<Longrightarrow> AlterKeyCase (Some (\<lambda>k. k)) t = Some t"
proof (induction t)
  case (Object os ar mp vl s)
  have a: "alterArray (Some (\<lambda>k. k)) ar = Some ar"
    using Object by (intro alterArray_id) simp
  have "\<forall>x \<in> set (map snd mp). AlterKeyCase (Some (\<lambda>k. k)) x = Some x"
    using Object by fastforce
  then have m: "alterMap (Some (\<lambda>k. k)) [] mp = Some mp"
    using alterMap_id [of mp "[]"] Object.prems by simp
  show ?case
    by (simp add: Let_def a m)
qed

lemma alterArray_nil:
  "\<forall>x \<in> set ar. AlterKeyCase None x = (if mapless x then Some x else None) \<Longrightarrow>
   alterArray None ar = (if \<forall>x \<in> set ar. mapless x then Some ar else None)"
  by (induction ar) (simp_all split: option.split)

lemma AlterKeyCase_nil:
  "AlterKeyCase None t = (if mapless t then Some t else None)"
proof (induction t)
  case (Object os ar mp vl s)
  have a: "alterArray None ar = (if \<forall>x \<in> set ar. mapless x then Some ar else None)"
    using Object by (intro alterArray_nil) simp
  have m: "mp \<noteq> [] \<Longrightarrow> alterMap None [] mp = None"
    by (cases mp) auto
  show ?case
    using m by (auto simp: Let_def a Kind_def kind_defs)
qed

section \<open>ToRaw and ObjectFromRaw on well-formed trees\<close>

lemma toRawMap_distinct:
  "distinct (map fst rv @ map fst mp) \<Longrightarrow>
   toRawMap rv mp = rv @ map (\<lambda>p. (fst p, ToRaw (snd p))) mp"
proof (induction mp arbitrary: rv)
  case Nil
  show ?case by simp
next
  case (Cons x mp)
  obtain key val where x: "x = (key, val)" by (cases x)
  have fresh: "key \<notin> fst ` set rv"
    using Cons.prems by (auto simp: x)
  have d: "distinct (map fst (rv @ [(key, ToRaw val)]) @ map fst mp)"
    using Cons.prems by (simp add: x)
  show ?case
    using Cons.IH [OF d] by (simp add: x update_fresh [OF fresh])
qed

lemma fromRawMap_distinct:
  "distinct (map fst m @ map fst kvs) \<Longrightarrow>
   fromRawMap m kvs = m @ map (\<lambda>p. (fst p, ObjectFromRaw (snd p))) kvs"
proof (induction kvs arbitrary: m)
  case Nil
  show ?case by simp
next
  case (Cons x kvs)
  obtain key val where x: "x = (key, val)" by (cases x)
  have fresh: "key \<notin> fst ` set m"
    using Cons.prems by (auto simp: x)
  have d: "distinct (map fst (m @ [(key, ObjectFromRaw val)]) @ map fst kvs)"
    using Cons.prems by (simp add: x)
  show ?case
    using Cons.IH [OF d] by (simp add: x update_fresh [OF fresh])
qed

lemma ObjectFromRaw_scalar:
  "scalar v \<Longrightarrow> ObjectFromRaw v = Object [] [] [] v False"
  by (cases v) simp_all

lemma ObjectFromRaw_ToRaw:
  "scalar_leaves t \<Longrightarrow> unique_keys t \<Longrightarrow> struct_eq (ObjectFromRaw (ToRaw t)) t"
proof (induction t)
  case (Object os ar mp vl s)
  let ?t = "Object os ar mp vl s"
  have elems: "\<forall>x \<in> set ar. struct_eq (ObjectFromRaw (ToRaw x)) x"
    using Object by simp
  have vals: "\<forall>p \<in> set mp. struct_eq (ObjectFromRaw (ToRaw (snd p))) (snd p)"
    using Object by fastforce
  have dist: "distinct (map fst mp)"
    using Object.prems(2) by simp
  consider "Kind ?t = Array_kind" | "Kind ?t = Map_kind" | "Kind ?t = Value_kind"
    using Kind_cases by blast
  then show ?case
  proof cases
    case 1
    then have ne: "ar \<noteq> []"
      by (auto simp: Kind_def kind_defs split: if_splits)
    have "list_all2 struct_eq (map ObjectFromRaw (map ToRaw ar)) ar"
      using elems by (simp add: list_all2_map1 list_all2_same)
    then show ?thesis
      using 1 ne by (simp add: Let_def Kind_def kind_defs)
  next
    case 2
    then have ne: "ar = []" "mp \<noteq> []"
      by (auto simp: Kind_def kind_defs split: if_splits)
    have raw: "toRawMap [] mp = map (\<lambda>p. (fst p, ToRaw (snd p))) mp"
      using toRawMap_distinct [of "[]" mp] dist by simp
    have "distinct (map fst (map (\<lambda>p. (fst p, ToRaw (snd p))) mp))"
      using dist by (simp add: comp_def)
    then have again: "fromRawMap [] (map (\<lambda>p. (fst p, ToRaw (snd p))) mp) =
                 map (\<lambda>p. (fst p, ObjectFromRaw (ToRaw (snd p)))) mp"
      using fromRawMap_distinct [of "[]" "map (\<lambda>p. (fst p, ToRaw (snd p))) mp"]
      by (simp add: comp_def)
    have "list_all2 (\<lambda>p q. fst p = fst q \<and> struct_eq (snd p) (snd q))
            (map (\<lambda>p. (fst p, ObjectFromRaw (ToRaw (snd p)))) mp) mp"
      using vals by (simp add: list_all2_map1 list_all2_same)
    then show ?thesis
      using 2 ne by (simp add: Let_def raw again Kind_def kind_defs)
  next
    case 3
    then have ne: "ar = []" "mp = []"
      by (auto simp: Kind_def kind_defs split: if_splits)
    have "scalar vl"
      using Object.prems(1) by simp
    then show ?thesis
      using 3 ne by (simp add: Let_def ObjectFromRaw_scalar Kind_def kind_defs)
  qed
qed

lemma fromRawMap_keys:
  "distinct (map fst m) \<Longrightarrow> distinct (map fst (fromRawMap m kvs))"
proof (induction kvs arbitrary: m)
  case Nil
  then show ?case by simp
next
  case (Cons x kvs)
  obtain key val where x: "x = (key, val)" by (cases x)
  show ?case
    using Cons.IH [of "AList.update key (ObjectFromRaw val) m"] Cons.prems
    by (simp add: x distinct_update)
qed

lemma set_update_subset: "snd ` set (AList.update k v al) \<subseteq> insert v (snd ` set al)"
  by (induction al) auto

lemma fromRawMap_values:
  "\<forall>x \<in> snd ` set m. P x \<Longrightarrow> \<forall>x \<in> snd ` set kvs. P (ObjectFromRaw x) \<Longrightarrow>
   \<forall>x \<in> snd ` set (fromRawMap m kvs). P x"
proof (induction kvs arbitrary: m)
  case Nil
  then show ?case by simp
next
  case (Cons x kvs)
  obtain key val where x: "x = (key, val)" by (cases x)
  have pv: "P (ObjectFromRaw val)"
    using Cons.prems(2) by (simp add: x)
  have "\<forall>y \<in> insert (ObjectFromRaw val) (snd ` set m). P y"
    using pv Cons.prems(1) by blast
  then have "\<forall>y \<in> snd ` set (AList.update key (ObjectFromRaw val) m). P y"
    using set_update_subset [of key "ObjectFromRaw val" m] by blast
  then show ?case
    using Cons.IH [of "AList.update key (ObjectFromRaw val) m"] Cons.prems(2) by (simp add: x)
qed

lemma ObjectFromRaw_wellformed:
  "scalar_leaves (ObjectFromRaw r) \<and> unique_keys (ObjectFromRaw r)"
proof (induction r)
  case (RSlice xs)
  then show ?case by simp
next
  case (RMap kvs)
  have "\<forall>x \<in> snd ` set kvs. scalar_leaves (ObjectFromRaw x) \<and> unique_keys (ObjectFromRaw x)"
    using RMap by fastforce
  then have "\<forall>x \<in> snd ` set (fromRawMap [] kvs). scalar_leaves x \<and> unique_keys x"
    by (intro fromRawMap_values) simp_all
  then show ?case
    using fromRawMap_keys [of "[]" kvs] by simp
qed simp_all

section \<open>Two scenarios\<close>

text \<open>
  The model run on two scenarios the documentation gives. Compiling the sources
  \<^verbatim>\<open>{"a": {"b": 1}}\<close> and \<^verbatim>\<open>{"a((replace))": {"c": 2}}\<close> in this order, from the empty map that
  \<^verbatim>\<open>compile\<close> starts with, yields \<^verbatim>\<open>{"a": {"c": 2}}\<close>; resolving
  \<^verbatim>\<open>{"user": "alice", "pass((secret))": "xyz"}\<close> marks the leaf \<^verbatim>\<open>pass\<close> secret and no other.
\<close>

lemma scenario_replace:
  "(let s1 = Object [] [] [(''a'', Object [] [] [(''b'', Object [] [] [] (RInt 1) False)] RNil False)]
               RNil False;
        s2 = Object [] [] [(''a((replace))'', Object [] [] [(''c'', Object [] [] [] (RInt 2) False)]
               RNil False)] RNil False;
        (_, t1, _) = Merge getCmd (Object [] [] [] RNil False) s1
    in snd (Merge getCmd t1 s2))
   = (Object [] [] [(''a'', Object [] [] [(''c'', Object [] [] [] (RInt 2) False)] RNil False)]
        RNil False, None)"
  by code_simp

lemma scenario_secret:
  "ResolveCommands getCmd
     (Object [] [] [(''user'', Object [] [] [] (RStr ''alice'') False),
                    (''pass((secret))'', Object [] [] [] (RStr ''xyz'') False)] RNil False)
   = (Object [] [] [(''user'', Object [] [] [] (RStr ''alice'') False),
                    (''pass'', Object [] [] [] (RStr ''xyz'') True)] RNil False, None)"
  by code_simp

section \<open>The claims\<close>

subsection \<open>Fail propagation\<close>

text \<open>
  Claim C5. A base of kind Map holds the key \<open>k\<close>; the incoming map holds a key that
  parses to the directive \<^verbatim>\<open>fail\<close> with final key \<open>k\<close> and a child of kind Value. When every
  direct key of the incoming map parses, none of them to \<^verbatim>\<open>clear\<close>, and the keys the loop
  visits before that key (\<open>pre\<close>) merge without an error, then, whatever follows, \<^verbatim>\<open>Merge\<close>
  returns \<^verbatim>\<open>ErrConflict\<close> together with the zero Object. At the node itself, \<^verbatim>\<open>merge\<close> on a
  base of kind Value under the directive \<^verbatim>\<open>fail\<close> returns \<^verbatim>\<open>ErrConflict\<close> and the zero Object.
  The tree returned with any error of \<^verbatim>\<open>Merge\<close> is the zero Object.
\<close>

theorem fail_conflict:
  assumes "Kind obj = Map_kind"
    and "k \<in> fst ` set (Map obj)"
    and "Map next = pre @ (key, val) # post"
    and "\<forall>j \<in> set (map fst (Map next)). snd (gc j) = None \<and> cmd (fst (gc j)) \<noteq> cmdClear"
    and "mergeMap gc (Map obj) pre = (m, None)"
    and "gc key = (command cmdFail k sec, None)"
    and "Kind val = Value_kind"
  shows "snd (Merge gc obj next) = (zeroObject, Some ErrConflict)
         \<and> (\<forall>c b n. Kind b = Value_kind \<and> cmd c = cmdFail \<longrightarrow>
                merge gc c b n = (Map b, zeroObject, Some ErrConflict))
         \<and> (\<forall>gc' b n m' rv e. Merge gc' b n = (m', rv, Some e) \<longrightarrow> rv = zeroObject)"
proof -
  have scan: "scanClear gc (Map next) = None"
    using assms(4) by (simp add: scanClear_None_iff)
  have "k \<in> fst ` set m"
    using mergeMap_keys [OF assms(2), of gc pre] assms(5) by simp
  then obtain existing where ex: "map_of m k = Some existing"
    by (metis domD dom_map_of_conv_image_fst)
  have valid: "getValidCmd gc key val = (command cmdFail k sec, None)"
    using assms(6,7) by (simp add: getValidCmd_def cmd_list_def kind_defs)
  have step: "mergeKey gc m key val = (m, Some ErrConflict)"
  proof (cases "Kind existing = Kind val")
    case True
    then have "merge gc (command cmdFail k sec) existing val = (Map existing, zeroObject, Some ErrConflict)"
      using assms(7) by (simp add: merge_Value cmd_defs)
    moreover have "AList.update k existing m = m"
      using ex by (simp add: update_triv)
    ultimately show ?thesis
      using True ex valid by (simp add: mergeKey.simps Object_collapse)
  next
    case False
    then show ?thesis
      using ex valid by (simp add: mergeKey.simps cmd_defs)
  qed
  have "mergeMap gc (Map obj) (Map next) = (m, Some ErrConflict)"
    unfolding assms(3) mergeMap_append using assms(5) step by simp
  then have "merge gc zeroCommand obj next = (m, zeroObject, Some ErrConflict)"
    using assms(1) by (simp add: merge_Map zeroCommand_def)
  then have "snd (Merge gc obj next) = (zeroObject, Some ErrConflict)"
    using scan by (simp add: Merge_def)
  moreover have "\<And>c b n. Kind b = Value_kind \<Longrightarrow> cmd c = cmdFail \<Longrightarrow>
                   merge gc c b n = (Map b, zeroObject, Some ErrConflict)"
    by (simp add: merge_Value cmd_defs)
  ultimately show ?thesis
    using Merge_error_zero by blast
qed

theorem fail_conflict_witness:
  "snd (Merge getCmd
     (Object [] [] [(''user'', Object [] [] [] (RStr ''alice'') False), (''port'', Object [] [] [] (RInt 80) False)] RNil False)
     (Object [] [] [(''user'', Object [] [] [] (RStr ''bob'') False), (''port((fail))'', Object [] [] [] (RInt 81) False), (''x'', Object [] [] [] RNil False)] RNil False))
   = (zeroObject, Some ErrConflict)"
proof -
  let ?b = "Object [] [] [(''user'', Object [] [] [] (RStr ''alice'') False), (''port'', Object [] [] [] (RInt 80) False)] RNil False"
  let ?n = "Object [] [] [(''user'', Object [] [] [] (RStr ''bob'') False), (''port((fail))'', Object [] [] [] (RInt 81) False), (''x'', Object [] [] [] RNil False)] RNil False"
  have 1: "Kind ?b = Map_kind" by code_simp
  have 2: "''port'' \<in> fst ` set (Map ?b)" by simp
  have 3: "Map ?n = [(''user'', Object [] [] [] (RStr ''bob'') False)] @ (''port((fail))'', Object [] [] [] (RInt 81) False) # [(''x'', Object [] [] [] RNil False)]" by simp
  have 4: "\<forall>j \<in> set (map fst (Map ?n)). snd (getCmd j) = None \<and> cmd (fst (getCmd j)) \<noteq> cmdClear" by code_simp
  have 5: "mergeMap getCmd (Map ?b) [(''user'', Object [] [] [] (RStr ''bob'') False)] =
     ([(''user'', Object [] [] [] (RStr ''bob'') False), (''port'', Object [] [] [] (RInt 80) False)], None)" by code_simp
  have 6: "getCmd ''port((fail))'' = (command cmdFail ''port'' False, None)" by code_simp
  have 7: "Kind (Object [] [] [] (RInt 81) False) = Value_kind" by code_simp
  show ?thesis
    using fail_conflict [OF 1 2 3 4 5 6 7] by simp
qed

text \<open>
  Without those two conditions the statement fails. A \<^verbatim>\<open>clear\<close> key beside the \<^verbatim>\<open>fail\<close> key
  ends \<^verbatim>\<open>Merge\<close> in its first loop, before any key is merged: the empty tree and no error.
  A key visited before the \<^verbatim>\<open>fail\<close> key whose directive does not suit its value ends the
  merge with \<^verbatim>\<open>ErrInvalidCommand\<close>.
\<close>

theorem fail_conflict_counterexample:
  "Kind (Object [] [] [(''k'', Object [] [] [] (RInt 1) False)] RNil False) = Map_kind
   \<and> Kind (Object [] [] [] (RInt 1) False) = Value_kind
   \<and> Kind (Object [] [] [] (RInt 2) False) = Value_kind
   \<and> getCmd ''k((fail))'' = (command cmdFail ''k'' False, None)
   \<and> Merge getCmd
       (Object [] [] [(''k'', Object [] [] [] (RInt 1) False)] RNil False)
       (Object [] [] [(''k((fail))'', Object [] [] [] (RInt 2) False),
                      (''z((clear))'', Object [] [] [] (RInt 3) False)] RNil False)
     = ([(''k'', Object [] [] [] (RInt 1) False)], Object [] [] [] RNil False, None)
   \<and> Merge getCmd
       (Object [] [] [(''k'', Object [] [] [] (RInt 1) False)] RNil False)
       (Object [] [] [(''z((clear))'', Object [] [] [] (RInt 3) False),
                      (''k((fail))'', Object [] [] [] (RInt 2) False)] RNil False)
     = ([(''k'', Object [] [] [] (RInt 1) False)], Object [] [] [] RNil False, None)
   \<and> Merge getCmd
       (Object [] [] [(''k'', Object [] [] [] (RInt 1) False)] RNil False)
       (Object [] [] [(''x((append))'', Object [] [] [] (RInt 3) False),
                      (''k((fail))'', Object [] [] [] (RInt 2) False)] RNil False)
     = ([(''k'', Object [] [] [] (RInt 1) False)], zeroObject, Some ErrInvalidCommand)
   \<and> (None :: error option) \<noteq> Some ErrConflict
   \<and> Some ErrInvalidCommand \<noteq> Some ErrConflict"
  by code_simp

subsection \<open>Merging onto a base of kind Value\<close>

text \<open>
  Claim C10. The base is of kind Value (the zero Object and an Object whose map is empty
  are) and every direct key of the incoming map parses, to a directive other than
  \<^verbatim>\<open>clear\<close>. Then \<^verbatim>\<open>Merge\<close> returns the incoming tree as it was passed, map keys unresolved,
  with the secret flag of the root set to false, and the base is untouched.
\<close>

theorem merge_onto_value:
  assumes "Kind obj = Value_kind"
    and "\<forall>k \<in> set (map fst (Map next)). snd (gc k) = None \<and> cmd (fst (gc k)) \<noteq> cmdClear"
  shows "Merge gc obj next =
           (Map obj, Object (Origins next) (Array next) (Map next) (Value next) False, None)"
proof -
  have "scanClear gc (Map next) = None"
    using assms(2) by (simp add: scanClear_None_iff)
  then show ?thesis
    using assms(1) by (simp add: Merge_def merge_Value zeroCommand_def)
qed

theorem merge_onto_value_witness:
  "Merge getCmd (Object [] [] [] RNil False)
     (Object [\<lparr>File = ''a.json'', Line = 1, Col = 1\<rparr>] []
        [(''a((replace))'', Object [] [] [] (RInt 1) False),
         (''pass((secret))'', Object [] [] [] (RStr ''xyz'') False)] RNil True)
   = ([],
      Object [\<lparr>File = ''a.json'', Line = 1, Col = 1\<rparr>] []
        [(''a((replace))'', Object [] [] [] (RInt 1) False),
         (''pass((secret))'', Object [] [] [] (RStr ''xyz'') False)] RNil False,
      None)"
proof -
  let ?n = "Object [\<lparr>File = ''a.json'', Line = 1, Col = 1\<rparr>] []
        [(''a((replace))'', Object [] [] [] (RInt 1) False),
         (''pass((secret))'', Object [] [] [] (RStr ''xyz'') False)] RNil True"
  have 1: "Kind (Object [] [] [] RNil False) = Value_kind" by code_simp
  have 2: "\<forall>k \<in> set (map fst (Map ?n)). snd (getCmd k) = None \<and> cmd (fst (getCmd k)) \<noteq> cmdClear"
    by code_simp
  show ?thesis
    using merge_onto_value [OF 1 2] by simp
qed

text \<open>
  Without the condition that the keys parse the statement fails: a key with an unknown
  directive holds no \<^verbatim>\<open>clear\<close>, and \<^verbatim>\<open>Merge\<close> returns the parser's error with the zero
  Object.
\<close>

theorem merge_onto_value_counterexample:
  "Kind zeroObject = Value_kind
   \<and> fst (getCmd ''a((bogus))'') \<noteq> command cmdClear ''a'' False
   \<and> cmd (fst (getCmd ''a((bogus))'')) \<noteq> cmdClear
   \<and> Merge getCmd zeroObject (Object [] [] [(''a((bogus))'', Object [] [] [] (RInt 1) False)] RNil False)
       = ([], zeroObject, Some ErrInvalidCommand)
   \<and> (zeroObject, Some ErrInvalidCommand)
       \<noteq> (Object [] [] [(''a((bogus))'', Object [] [] [] (RInt 1) False)] RNil False, None)"
  by code_simp

subsection \<open>The clear directive\<close>

text \<open>
  Claim C4. A direct key of the incoming map parses to \<^verbatim>\<open>clear\<close>, and the keys the first loop
  of \<^verbatim>\<open>Merge\<close> visits before it (\<open>pre\<close>) all parse. Then \<^verbatim>\<open>Merge\<close> returns the empty tree and
  no error, whatever the base and the other keys hold; the base is untouched.
\<close>

theorem clear_discards:
  assumes "Map next = pre @ (k, v) # post"
    and "\<forall>j \<in> set (map fst pre). snd (gc j) = None"
    and "gc k = (c, None)"
    and "cmd c = cmdClear"
  shows "Merge gc obj next = (Map obj, Object [] [] [] RNil False, None)"
proof -
  have "scanClear gc (pre @ (k, v) # post) = Some (Object [] [] [] RNil False, None)"
    using assms(2)
  proof (induction pre)
    case Nil
    show ?case using assms(3,4) by simp
  next
    case (Cons x xs)
    obtain j w where x: "x = (j, w)" by (cases x)
    obtain d where g: "gc j = (d, None)"
      using Cons.prems by (cases "gc j") (simp add: x)
    show ?case
      using Cons by (simp add: x g)
  qed
  then show ?thesis
    by (simp add: Merge_def assms(1))
qed

theorem clear_discards_witness:
  "Merge getCmd
     (Object [] [] [(''a'', Object [] [] [] (RInt 1) False)] RNil False)
     (Object [] [] [(''b'', Object [] [] [] (RInt 2) False),
                    (''c((clear))'', Object [] [] [] (RInt 3) False),
                    (''d((bogus))'', Object [] [] [] (RInt 4) False)] RNil False)
   = ([(''a'', Object [] [] [] (RInt 1) False)], Object [] [] [] RNil False, None)"
proof -
  let ?n = "Object [] [] [(''b'', Object [] [] [] (RInt 2) False),
                    (''c((clear))'', Object [] [] [] (RInt 3) False),
                    (''d((bogus))'', Object [] [] [] (RInt 4) False)] RNil False"
  have 1: "Map ?n = [(''b'', Object [] [] [] (RInt 2) False)] @
             (''c((clear))'', Object [] [] [] (RInt 3) False) #
             [(''d((bogus))'', Object [] [] [] (RInt 4) False)]" by simp
  have 2: "\<forall>j \<in> set (map fst [(''b'', Object [] [] [] (RInt 2) False)]). snd (getCmd j) = None"
    by code_simp
  have 3: "getCmd ''c((clear))'' = (command cmdClear ''c'' False, None)" by code_simp
  have 4: "cmd (command cmdClear ''c'' False) = cmdClear" by simp
  show ?thesis
    using clear_discards [OF 1 2 3 4] by simp
qed

text \<open>
  A key that does not parse and is visited before the \<^verbatim>\<open>clear\<close> key ends the loop with its
  error.
\<close>

theorem clear_discards_counterexample:
  "cmd (fst (getCmd ''c((clear))'')) = cmdClear
   \<and> snd (getCmd ''c((clear))'') = None
   \<and> Merge getCmd
       (Object [] [] [(''a'', Object [] [] [] (RInt 1) False)] RNil False)
       (Object [] [] [(''d((bogus))'', Object [] [] [] (RInt 4) False),
                      (''c((clear))'', Object [] [] [] (RInt 3) False)] RNil False)
     = ([(''a'', Object [] [] [] (RInt 1) False)], zeroObject, Some ErrInvalidCommand)"
  by code_simp

subsection \<open>Merging the empty tree\<close>

text \<open>
  Claim C1. Merging the zero Object onto a tree \<open>t\<close> returns no error and: \<open>t\<close> itself when
  \<open>t\<close> is of kind Array; \<open>t\<close> with the secret flag of its root set to false when \<open>t\<close> is of
  kind Map; the zero Object, the incoming tree, when \<open>t\<close> is of kind Value.
\<close>

theorem merge_empty:
  "Merge gc t zeroObject =
     (Map t,
      if Kind t = Array_kind then t
      else if Kind t = Map_kind then Object (Origins t) (Array t) (Map t) (Value t) False
      else zeroObject,
      None)"
proof -
  have scan: "scanClear gc (Map zeroObject) = None"
    by (simp add: zeroObject_def)
  have res: "\<And>s. resolveCommands gc s zeroObject = (Object [] [] [] RNil s, None)"
    by (simp add: zeroObject_def Kind_def kind_defs)
  consider "Kind t = Value_kind" | "Kind t = Array_kind" | "Kind t = Map_kind"
    using Kind_cases by blast
  then show ?thesis
  proof cases
    case 1
    then show ?thesis
      by (simp add: Merge_def scan merge_Value zeroCommand_def kind_defs) (simp add: zeroObject_def)
  next
    case 2
    have c: "secret t \<Longrightarrow> Object (Origins t) (Array t) (Map t) (Value t) True = t"
      "\<not> secret t \<Longrightarrow> Object (Origins t) (Array t) (Map t) (Value t) False = t"
      using Object_collapse [of t] by simp_all
    show ?thesis
      using 2 by (simp add: Merge_def scan merge_Array zeroCommand_def res c)
  next
    case 3
    then show ?thesis
      by (simp add: Merge_def scan merge_Map zeroCommand_def kind_defs) (simp add: zeroObject_def)
  qed
qed

text \<open>
  A leaf is replaced by the empty incoming tree, and a secret map comes back not secret.
\<close>

theorem merge_empty_counterexample:
  "Merge getCmd (Object [] [] [] (RStr ''x'') False) zeroObject = ([], zeroObject, None)
   \<and> zeroObject \<noteq> Object [] [] [] (RStr ''x'') False
   \<and> Kind (Object [] [] [] (RStr ''x'') False) = Value_kind
   \<and> Merge getCmd (Object [] [] [(''a'', Object [] [] [] (RInt 1) False)] RNil True) zeroObject
       = ([(''a'', Object [] [] [] (RInt 1) False)],
          Object [] [] [(''a'', Object [] [] [] (RInt 1) False)] RNil False, None)
   \<and> Kind (Object [] [] [(''a'', Object [] [] [] (RInt 1) False)] RNil True) = Map_kind"
  by code_simp

subsection \<open>Keys whose values differ in kind\<close>

text \<open>
  Claim C2.
  The setting of a splice merge at one key: the base is of kind Map, the keys of the
  incoming map parse and none is \<^verbatim>\<open>clear\<close>, the loop has merged the keys \<open>pre\<close> without an
  error and \<open>m\<close> is the base's map at that point; \<open>key\<close> is visited next and parses to the
  directive \<open>d\<close> with final key \<open>k\<close>, which \<open>m\<close> holds.
  The base's value under \<open>k\<close> is of kind Map and the incoming value is of kind Array. With
  no directive, or with \<^verbatim>\<open>replace\<close>, the incoming value with its commands resolved is
  written under \<open>k\<close> and the loop goes on (an error of that resolution is the error
  returned); with \<^verbatim>\<open>keep\<close> the base's value stays and the loop goes on; with \<^verbatim>\<open>fail\<close> the
  merge returns \<^verbatim>\<open>ErrConflict\<close>.
\<close>

theorem kind_mismatch_map_array:
  assumes "Kind obj = Map_kind"
    and "\<forall>j \<in> set (map fst (Map next)). snd (gc j) = None \<and> cmd (fst (gc j)) \<noteq> cmdClear"
    and "Map next = pre @ (key, val) # post"
    and "mergeMap gc (Map obj) pre = (m, None)"
    and "gc key = (command d k sec, None)"
    and "map_of m k = Some existing"
    and "Kind existing = Map_kind"
    and "Kind val = Array_kind"
  shows "(d = [] \<or> d = cmdReplace \<longrightarrow>
           (\<forall>v. resolveCommands gc sec val = (v, None) \<longrightarrow>
              Merge gc obj next =
                (case mergeMap gc (AList.update k v m) post of
                   (m', Some err) \<Rightarrow> (m', zeroObject, Some err)
                 | (m', None) \<Rightarrow>
                     (m', Object (Origins obj) (Array obj) m' (Value obj) False, None))) \<and>
           (\<forall>v err. resolveCommands gc sec val = (v, Some err) \<longrightarrow>
              Merge gc obj next = (m, zeroObject, Some err)))
       \<and> (d = cmdKeep \<longrightarrow>
           Merge gc obj next =
             (case mergeMap gc m post of
                (m', Some err) \<Rightarrow> (m', zeroObject, Some err)
              | (m', None) \<Rightarrow>
                  (m', Object (Origins obj) (Array obj) m' (Value obj) False, None)))
       \<and> (d = cmdFail \<longrightarrow> Merge gc obj next = (m, zeroObject, Some ErrConflict))"
proof -
  note at = Merge_at_key [OF assms(1-4)]
  have ne: "Kind existing \<noteq> Kind val"
    using assms(7,8) by (simp add: kind_defs)
  have valid: "d = [] \<or> d = cmdReplace \<or> d = cmdKeep \<or> d = cmdFail \<Longrightarrow>
               getValidCmd gc key val = (command d k sec, None)"
    using assms(5,8) by (auto simp: getValidCmd_def cmd_list_def kind_defs)
  have ex: "map_of m (final (command d k sec)) = Some existing"
    using assms(6) by simp
  have keep: "AList.update k existing m = m"
    using assms(6) by (simp add: update_triv)
  have 1: "d = [] \<or> d = cmdReplace \<Longrightarrow> mergeKey gc m key val =
             (case resolveCommands gc sec val of
                (_, Some err) \<Rightarrow> (m, Some err)
              | (v, None) \<Rightarrow> (AList.update k v m, None))"
    using mergeKey_mismatch [OF valid ex ne] by auto
  have 2: "d = cmdKeep \<Longrightarrow> mergeKey gc m key val = (m, None)"
    using mergeKey_mismatch [OF valid ex ne] keep by (simp add: cmd_defs)
  have 3: "d = cmdFail \<Longrightarrow> mergeKey gc m key val = (m, Some ErrConflict)"
    using mergeKey_mismatch [OF valid ex ne] by (simp add: cmd_defs)
  show ?thesis
    using 1 2 3 by (simp add: at)
qed

theorem kind_mismatch_map_array_witness:
  "Merge getCmd
     (Object [] [] [(''a'', Object [] [] [(''x'', Object [] [] [] (RInt 1) False)] RNil False)] RNil False)
     (Object [] [] [(''a'', Object [] [Object [] [] [] (RInt 2) False] [] RNil False)] RNil False)
   = ([(''a'', Object [] [Object [] [] [] (RInt 2) False] [] RNil False)],
      Object [] [] [(''a'', Object [] [Object [] [] [] (RInt 2) False] [] RNil False)] RNil False,
      None)"
proof -
  let ?e = "Object [] [] [(''x'', Object [] [] [] (RInt 1) False)] RNil False"
  let ?v = "Object [] [Object [] [] [] (RInt 2) False] [] RNil False"
  let ?b = "Object [] [] [(''a'', ?e)] RNil False"
  let ?n = "Object [] [] [(''a'', ?v)] RNil False"
  have 1: "Kind ?b = Map_kind" by code_simp
  have 2: "\<forall>j \<in> set (map fst (Map ?n)). snd (getCmd j) = None \<and> cmd (fst (getCmd j)) \<noteq> cmdClear"
    by code_simp
  have 3: "Map ?n = [] @ (''a'', ?v) # []" by simp
  have 4: "mergeMap getCmd (Map ?b) [] = ([(''a'', ?e)], None)" by simp
  have 5: "getCmd ''a'' = (command [] ''a'' False, None)" by code_simp
  have 6: "map_of [(''a'', ?e)] ''a'' = Some ?e" by simp
  have 7: "Kind ?e = Map_kind" by code_simp
  have 8: "Kind ?v = Array_kind" by code_simp
  have 9: "resolveCommands getCmd False ?v = (?v, None)" by code_simp
  show ?thesis
    using kind_mismatch_map_array [OF 1 2 3 4 5 6 7 8] 9 by simp
qed

text \<open>
  With no directive the merge of a Map-valued key against an Array-valued one succeeds.
\<close>

theorem kind_mismatch_map_array_counterexample:
  "Kind (Object [] [] [(''host'', Object [] [] [] (RStr ''h'') False)] RNil False) = Map_kind
   \<and> Kind (Object [] [Object [] [] [] (RStr ''h1'') False, Object [] [] [] (RStr ''h2'') False] [] RNil False)
       = Array_kind
   \<and> getCmd ''srv'' = (command [] ''srv'' False, None)
   \<and> Merge getCmd
       (Object [] [] [(''srv'', Object [] [] [(''host'', Object [] [] [] (RStr ''h'') False)] RNil False)] RNil False)
       (Object [] [] [(''srv'', Object [] [Object [] [] [] (RStr ''h1'') False, Object [] [] [] (RStr ''h2'') False] [] RNil False)] RNil False)
     = ([(''srv'', Object [] [Object [] [] [] (RStr ''h1'') False, Object [] [] [] (RStr ''h2'') False] [] RNil False)],
        Object [] [] [(''srv'', Object [] [Object [] [] [] (RStr ''h1'') False, Object [] [] [] (RStr ''h2'') False] [] RNil False)] RNil False,
        None)"
  by code_simp

text \<open>
  Claim C3.
  The setting of a splice merge at one key: the base is of kind Map, the keys of the
  incoming map parse and none is \<^verbatim>\<open>clear\<close>, the loop has merged the keys \<open>pre\<close> without an
  error and \<open>m\<close> is the base's map at that point; \<open>key\<close> is visited next and parses to the
  directive \<open>d\<close> with final key \<open>k\<close>, which \<open>m\<close> holds.
  The base's value under \<open>k\<close> and the incoming value differ in kind. A directive that
  \<^verbatim>\<open>getValidCmd\<close> does not list for the kind of the incoming value makes the merge return
  \<^verbatim>\<open>ErrInvalidCommand\<close>. The directive \<^verbatim>\<open>splice\<close> on an incoming value of kind Map is treated
  as \<^verbatim>\<open>replace\<close>: the incoming value with its commands resolved is written under \<open>k\<close>.
\<close>

theorem kind_mismatch_other_directives:
  assumes "Kind obj = Map_kind"
    and "\<forall>j \<in> set (map fst (Map next)). snd (gc j) = None \<and> cmd (fst (gc j)) \<noteq> cmdClear"
    and "Map next = pre @ (key, val) # post"
    and "mergeMap gc (Map obj) pre = (m, None)"
    and "gc key = (command d k sec, None)"
    and "map_of m k = Some existing"
    and "Kind existing \<noteq> Kind val"
  shows "(d \<noteq> [] \<and> d \<noteq> cmdReplace \<and> d \<noteq> cmdKeep \<and> d \<noteq> cmdFail
            \<and> \<not> (d = cmdSplice \<and> Kind val = Map_kind)
            \<and> \<not> ((d = cmdAppend \<or> d = cmdPrepend) \<and> Kind val = Array_kind) \<longrightarrow>
           Merge gc obj next = (m, zeroObject, Some ErrInvalidCommand))
       \<and> (d = cmdSplice \<and> Kind val = Map_kind \<longrightarrow>
           (\<forall>v. resolveCommands gc sec val = (v, None) \<longrightarrow>
              Merge gc obj next =
                (case mergeMap gc (AList.update k v m) post of
                   (m', Some err) \<Rightarrow> (m', zeroObject, Some err)
                 | (m', None) \<Rightarrow>
                     (m', Object (Origins obj) (Array obj) m' (Value obj) False, None))) \<and>
           (\<forall>v err. resolveCommands gc sec val = (v, Some err) \<longrightarrow>
              Merge gc obj next = (m, zeroObject, Some err)))"
proof -
  note at = Merge_at_key [OF assms(1-4)]
  have bad: "mergeKey gc m key val = (m, Some ErrInvalidCommand)"
    if "d \<noteq> []" "d \<noteq> cmdReplace" "d \<noteq> cmdKeep" "d \<noteq> cmdFail"
      "\<not> (d = cmdSplice \<and> Kind val = Map_kind)"
      "\<not> ((d = cmdAppend \<or> d = cmdPrepend) \<and> Kind val = Array_kind)"
  proof -
    have "getValidCmd gc key val = (zeroCommand, Some ErrInvalidCommand)"
      using that assms(5) Kind_cases [of val]
      by (auto simp: getValidCmd_def cmd_list_def kind_defs)
    then show ?thesis
      by (simp add: mergeKey.simps)
  qed
  have splice: "mergeKey gc m key val =
                  (case resolveCommands gc sec val of
                     (_, Some err) \<Rightarrow> (m, Some err)
                   | (v, None) \<Rightarrow> (AList.update k v m, None))"
    if "d = cmdSplice" "Kind val = Map_kind"
  proof -
    have valid: "getValidCmd gc key val = (command d k sec, None)"
      using that assms(5) by (simp add: getValidCmd_def cmd_list_def kind_defs)
    have ex: "map_of m (final (command d k sec)) = Some existing"
      using assms(6) by simp
    show ?thesis
      using mergeKey_mismatch [OF valid ex assms(7)] that by simp
  qed
  show ?thesis
    using bad splice by (simp add: at)
qed

theorem kind_mismatch_other_directives_witness:
  "Merge getCmd
     (Object [] [] [(''a'', Object [] [Object [] [] [] (RInt 1) False] [] RNil False)] RNil False)
     (Object [] [] [(''a((append))'', Object [] [] [] (RInt 5) False)] RNil False)
   = ([(''a'', Object [] [Object [] [] [] (RInt 1) False] [] RNil False)], zeroObject,
      Some ErrInvalidCommand)"
proof -
  let ?e = "Object [] [Object [] [] [] (RInt 1) False] [] RNil False"
  let ?v = "Object [] [] [] (RInt 5) False"
  let ?b = "Object [] [] [(''a'', ?e)] RNil False"
  let ?n = "Object [] [] [(''a((append))'', ?v)] RNil False"
  have 1: "Kind ?b = Map_kind" by code_simp
  have 2: "\<forall>j \<in> set (map fst (Map ?n)). snd (getCmd j) = None \<and> cmd (fst (getCmd j)) \<noteq> cmdClear"
    by code_simp
  have 3: "Map ?n = [] @ (''a((append))'', ?v) # []" by simp
  have 4: "mergeMap getCmd (Map ?b) [] = ([(''a'', ?e)], None)" by simp
  have 5: "getCmd ''a((append))'' = (command cmdAppend ''a'' False, None)" by code_simp
  have 6: "map_of [(''a'', ?e)] ''a'' = Some ?e" by simp
  have 7: "Kind ?e \<noteq> Kind ?v" by code_simp
  have 8: "Kind ?v = Value_kind" by code_simp
  show ?thesis
    using kind_mismatch_other_directives [OF 1 2 3 4 5 6 7] 8
    by (simp add: cmd_defs kind_defs)
qed

text \<open>
  The directive \<^verbatim>\<open>splice\<close> on a Map-valued key against a leaf of the base is no error.
\<close>

theorem kind_mismatch_other_directives_counterexample:
  "getCmd ''a((splice))'' = (command cmdSplice ''a'' False, None)
   \<and> Kind (Object [] [] [] (RInt 1) False) = Value_kind
   \<and> Kind (Object [] [] [(''x'', Object [] [] [] (RInt 2) False)] RNil False) = Map_kind
   \<and> Merge getCmd
       (Object [] [] [(''a'', Object [] [] [] (RInt 1) False)] RNil False)
       (Object [] [] [(''a((splice))'', Object [] [] [(''x'', Object [] [] [] (RInt 2) False)] RNil False)] RNil False)
     = ([(''a'', Object [] [] [(''x'', Object [] [] [] (RInt 2) False)] RNil False)],
        Object [] [] [(''a'', Object [] [] [(''x'', Object [] [] [] (RInt 2) False)] RNil False)] RNil False,
        None)"
  by code_simp

subsection \<open>The order of merged Arrays\<close>

text \<open>
  Claim C6. Two nodes of kind Array are merged under the command \<open>c\<close> of their key. The
  incoming node is resolved first; \<open>elems\<close> are its elements with their commands resolved.
  With no directive or \<^verbatim>\<open>append\<close> the result holds the base's elements followed by \<open>elems\<close> and
  the base's Origins followed by the incoming Origins; with \<^verbatim>\<open>prepend\<close> both are the other
  way round. When the incoming elements are leaves, \<open>elems\<close> are the incoming elements
  themselves. When resolving fails, the merge returns that error.
\<close>

theorem array_merge_order:
  assumes "Kind obj = Array_kind"
    and "Kind next = Array_kind"
  shows "(\<forall>elems. resolveArray gc (Array next) = (elems, None) \<longrightarrow>
            (cmd c = [] \<or> cmd c = cmdAppend \<longrightarrow>
               merge gc c obj next =
                 (Map obj,
                  Object (Origins obj @ Origins next) (Array obj @ elems) (Map obj) (Value obj)
                    (secret obj \<or> secret next \<or> cmd_secret c),
                  None)) \<and>
            (cmd c = cmdPrepend \<longrightarrow>
               merge gc c obj next =
                 (Map obj,
                  Object (Origins next @ Origins obj) (elems @ Array obj) (Map obj) (Value obj)
                    (secret obj \<or> secret next \<or> cmd_secret c),
                  None)))
       \<and> ((\<forall>x \<in> set (Array next). Kind x = Value_kind) \<longrightarrow>
            resolveArray gc (Array next) = (Array next, None))
       \<and> (\<forall>elems err. resolveArray gc (Array next) = (elems, Some err) \<longrightarrow>
            merge gc c obj next = (Map obj, zeroObject, Some err))"
proof (intro conjI allI impI)
  fix elems
  assume r: "resolveArray gc (Array next) = (elems, None)"
  have res: "resolveCommands gc (secret obj) next =
               (Object (Origins next) elems (Map next) (Value next)
                  (if secret obj then True else secret next), None)"
    by (simp add: resolveCommands_Array [OF assms(2)] r)
  {
    assume "cmd c = [] \<or> cmd c = cmdAppend"
    then show "merge gc c obj next =
                 (Map obj,
                  Object (Origins obj @ Origins next) (Array obj @ elems) (Map obj) (Value obj)
                    (secret obj \<or> secret next \<or> cmd_secret c),
                  None)"
      by (auto simp: merge_Array [OF assms(1)] res)
  }
  {
    assume "cmd c = cmdPrepend"
    then show "merge gc c obj next =
                 (Map obj,
                  Object (Origins next @ Origins obj) (elems @ Array obj) (Map obj) (Value obj)
                    (secret obj \<or> secret next \<or> cmd_secret c),
                  None)"
      by (auto simp: merge_Array [OF assms(1)] res cmd_defs)
  }
next
  assume "\<forall>x \<in> set (Array next). Kind x = Value_kind"
  then show "resolveArray gc (Array next) = (Array next, None)"
    by (rule resolveArray_leaves)
next
  fix elems err
  assume "resolveArray gc (Array next) = (elems, Some err)"
  then show "merge gc c obj next = (Map obj, zeroObject, Some err)"
    by (simp add: merge_Array [OF assms(1)] resolveCommands_Array [OF assms(2)])
qed

theorem array_merge_order_witness:
  "merge getCmd (command cmdPrepend ''k'' False)
     (Object [\<lparr>File = ''a'', Line = 1, Col = 1\<rparr>]
        [Object [] [] [] (RStr ''a'') False, Object [] [] [] (RStr ''b'') False] [] RNil False)
     (Object [\<lparr>File = ''b'', Line = 2, Col = 2\<rparr>]
        [Object [] [] [] (RStr ''c'') False, Object [] [] [] (RStr ''d'') False] [] RNil False)
   = ([],
      Object [\<lparr>File = ''b'', Line = 2, Col = 2\<rparr>, \<lparr>File = ''a'', Line = 1, Col = 1\<rparr>]
        [Object [] [] [] (RStr ''c'') False, Object [] [] [] (RStr ''d'') False,
         Object [] [] [] (RStr ''a'') False, Object [] [] [] (RStr ''b'') False] [] RNil False,
      None)
   \<and> Merge getCmd
     (Object [\<lparr>File = ''a'', Line = 1, Col = 1\<rparr>]
        [Object [] [] [] (RStr ''a'') False, Object [] [] [] (RStr ''b'') False] [] RNil False)
     (Object [\<lparr>File = ''b'', Line = 2, Col = 2\<rparr>]
        [Object [] [] [] (RStr ''c'') False, Object [] [] [] (RStr ''d'') False] [] RNil False)
   = ([],
      Object [\<lparr>File = ''a'', Line = 1, Col = 1\<rparr>, \<lparr>File = ''b'', Line = 2, Col = 2\<rparr>]
        [Object [] [] [] (RStr ''a'') False, Object [] [] [] (RStr ''b'') False,
         Object [] [] [] (RStr ''c'') False, Object [] [] [] (RStr ''d'') False] [] RNil False,
      None)"
proof -
  let ?ab = "Object [\<lparr>File = ''a'', Line = 1, Col = 1\<rparr>]
        [Object [] [] [] (RStr ''a'') False, Object [] [] [] (RStr ''b'') False] [] RNil False"
  let ?cd = "Object [\<lparr>File = ''b'', Line = 2, Col = 2\<rparr>]
        [Object [] [] [] (RStr ''c'') False, Object [] [] [] (RStr ''d'') False] [] RNil False"
  have 1: "Kind ?ab = Array_kind" by code_simp
  have 2: "Kind ?cd = Array_kind" by code_simp
  have 3: "\<forall>x \<in> set (Array ?cd). Kind x = Value_kind" by code_simp
  note t = array_merge_order [OF 1 2, of getCmd]
  have 4: "resolveArray getCmd (Array ?cd) = (Array ?cd, None)"
    using t [of zeroCommand] 3 by blast
  have pre: "merge getCmd (command cmdPrepend ''k'' False) ?ab ?cd =
      (Map ?ab,
       Object (Origins ?cd @ Origins ?ab) (Array ?cd @ Array ?ab) (Map ?ab) (Value ?ab)
         (secret ?ab \<or> secret ?cd \<or> cmd_secret (command cmdPrepend ''k'' False)), None)"
    using t [of "command cmdPrepend ''k'' False"] 4 by simp
  have app: "merge getCmd zeroCommand ?ab ?cd =
      (Map ?ab,
       Object (Origins ?ab @ Origins ?cd) (Array ?ab @ Array ?cd) (Map ?ab) (Value ?ab)
         (secret ?ab \<or> secret ?cd \<or> cmd_secret zeroCommand), None)"
    using t [of zeroCommand] 4 by (simp add: zeroCommand_def)
  have "Merge getCmd ?ab ?cd = merge getCmd zeroCommand ?ab ?cd"
    by (simp add: Merge_def)
  then show ?thesis
    using pre app by (simp add: zeroCommand_def)
qed

text \<open>
  An incoming element that is a map with a directive in a key is not found in the result:
  its resolved form is.
\<close>

theorem array_merge_order_counterexample:
  "Kind (Object [] [Object [] [] [] (RStr ''a'') False] [] RNil False) = Array_kind
   \<and> Kind (Object [] [Object [] [] [(''x((secret))'', Object [] [] [] (RInt 1) False)] RNil False] []
             RNil False) = Array_kind
   \<and> Array (fst (snd (Merge getCmd
        (Object [] [Object [] [] [] (RStr ''a'') False] [] RNil False)
        (Object [] [Object [] [] [(''x((secret))'', Object [] [] [] (RInt 1) False)] RNil False] []
           RNil False))))
     = [Object [] [] [] (RStr ''a'') False,
        Object [] [] [(''x'', Object [] [] [] (RInt 1) True)] RNil False]
   \<and> [Object [] [] [] (RStr ''a'') False,
        Object [] [] [(''x'', Object [] [] [] (RInt 1) True)] RNil False]
     \<noteq> Array (Object [] [Object [] [] [] (RStr ''a'') False] [] RNil False)
       @ Array (Object [] [Object [] [] [(''x((secret))'', Object [] [] [] (RInt 1) False)] RNil False]
                  [] RNil False)"
  by code_simp

subsection \<open>AlterKeyCase as a no-op\<close>

text \<open>
  Claim C9. With the identity as transform \<^verbatim>\<open>AlterKeyCase\<close> returns a tree equal to its input
  (the keys of each map being distinct, as in a Go map). With a nil transform it returns
  its input on the trees in which it meets no node of kind Map, and panics on every other
  tree.
\<close>

theorem alter_key_case_noop:
  "(unique_keys t \<longrightarrow> AlterKeyCase (Some (\<lambda>k. k)) t = Some t)
   \<and> AlterKeyCase None t = (if mapless t then Some t else None)"
  using AlterKeyCase_id AlterKeyCase_nil by blast

theorem alter_key_case_noop_witness:
  "AlterKeyCase (Some (\<lambda>k. k))
     (Object [] [] [(''Foo'', Object [] [Object [] [] [] (RInt 1) False] [] RNil False),
                    (''bar'', Object [] [] [(''Baz'', Object [] [] [] RNil True)] RNil False)] RNil False)
   = Some (Object [] [] [(''Foo'', Object [] [Object [] [] [] (RInt 1) False] [] RNil False),
                    (''bar'', Object [] [] [(''Baz'', Object [] [] [] RNil True)] RNil False)] RNil False)
   \<and> AlterKeyCase None (Object [] [Object [] [] [] (RInt 1) False, Object [] [] [] (RStr ''x'') False] [] RNil False)
   = Some (Object [] [Object [] [] [] (RInt 1) False, Object [] [] [] (RStr ''x'') False] [] RNil False)"
proof -
  let ?t = "Object [] [] [(''Foo'', Object [] [Object [] [] [] (RInt 1) False] [] RNil False),
                    (''bar'', Object [] [] [(''Baz'', Object [] [] [] RNil True)] RNil False)] RNil False"
  let ?u = "Object [] [Object [] [] [] (RInt 1) False, Object [] [] [] (RStr ''x'') False] [] RNil False"
  have 1: "unique_keys ?t" by code_simp
  have 2: "mapless ?u" by code_simp
  show ?thesis
    using alter_key_case_noop [of ?t] alter_key_case_noop [of ?u] 1 2 by simp
qed

text \<open>
  On a map with one key the nil transform is called: the panic.
\<close>

theorem alter_key_case_noop_counterexample:
  "AlterKeyCase None (Object [] [] [(''a'', Object [] [] [] (RInt 1) False)] RNil False) = None"
  by code_simp

subsection \<open>The round trip through the native form\<close>

text \<open>
  Claim C8. A tree whose leaves hold JSON scalars (nil, a boolean, a number, a string) and
  whose maps have distinct keys is a tree built from JSON-representable data, whatever
  Origins and secret flags it carries. For such a tree \<open>t\<close>, \<^verbatim>\<open>ObjectFromRaw(t.ToRaw())\<close> is
  structurally equal to \<open>t\<close>, Origins and secret flags ignored. Every tree that
  \<^verbatim>\<open>ObjectFromRaw\<close> builds, from empty maps and empty sequences too, is such a tree.
\<close>

theorem roundtrip:
  "(scalar_leaves t \<and> unique_keys t \<longrightarrow> struct_eq (ObjectFromRaw (ToRaw t)) t)
   \<and> scalar_leaves (ObjectFromRaw r) \<and> unique_keys (ObjectFromRaw r)"
  using ObjectFromRaw_ToRaw ObjectFromRaw_wellformed by blast

theorem roundtrip_witness:
  "struct_eq
     (ObjectFromRaw (ToRaw
        (Object [\<lparr>File = ''f.yml'', Line = 1, Col = 1\<rparr>] []
           [(''user'', Object [\<lparr>File = ''f.yml'', Line = 2, Col = 3\<rparr>] [] [] (RStr ''alice'') False),
            (''pass'', Object [] [] [] (RStr ''xyz'') True),
            (''ports'', Object [] [Object [] [] [] (RInt 80) False, Object [] [] [] RNil False] [] RNil False),
            (''none'', Object [] [] [] RNil False)] RNil False)))
     (Object [\<lparr>File = ''f.yml'', Line = 1, Col = 1\<rparr>] []
        [(''user'', Object [\<lparr>File = ''f.yml'', Line = 2, Col = 3\<rparr>] [] [] (RStr ''alice'') False),
         (''pass'', Object [] [] [] (RStr ''xyz'') True),
         (''ports'', Object [] [Object [] [] [] (RInt 80) False, Object [] [] [] RNil False] [] RNil False),
         (''none'', Object [] [] [] RNil False)] RNil False)
   \<and> struct_eq
     (ObjectFromRaw (ToRaw (ObjectFromRaw (RMap [(''a'', RSlice []), (''b'', RMap []), (''c'', RSlice [RBool True])]))))
     (ObjectFromRaw (RMap [(''a'', RSlice []), (''b'', RMap []), (''c'', RSlice [RBool True])]))"
proof -
  let ?t = "Object [\<lparr>File = ''f.yml'', Line = 1, Col = 1\<rparr>] []
        [(''user'', Object [\<lparr>File = ''f.yml'', Line = 2, Col = 3\<rparr>] [] [] (RStr ''alice'') False),
         (''pass'', Object [] [] [] (RStr ''xyz'') True),
         (''ports'', Object [] [Object [] [] [] (RInt 80) False, Object [] [] [] RNil False] [] RNil False),
         (''none'', Object [] [] [] RNil False)] RNil False"
  let ?r = "RMap [(''a'', RSlice []), (''b'', RMap []), (''c'', RSlice [RBool True])]"
  have 1: "scalar_leaves ?t \<and> unique_keys ?t" by code_simp
  have a: "struct_eq (ObjectFromRaw (ToRaw ?t)) ?t"
    using roundtrip [of ?t] 1 by blast
  have b: "struct_eq (ObjectFromRaw (ToRaw (ObjectFromRaw ?r))) (ObjectFromRaw ?r)"
    using roundtrip [of "ObjectFromRaw ?r" ?r] by blast
  show ?thesis
    using a b by blast
qed

subsection \<open>What Merge leaves of the base\<close>




end
